theory Spec2Isabelle
  imports Complex_Main "HOL-Library.Word" "HOL-Library.Sublist"
begin

section \<open>Values of the host language\<close>

text \<open>
  A TypeScript \<open>number\<close> is written as a rational: the indices the program computes
  (\<open>i - 1\<close>), the numerals of a JSON text and the comparison \<open>a - b\<close> of the export
  sort are exact there. Rounding to binary64 is not part of the model; no definition
  below does arithmetic whose result depends on it.

  A string is its sequence of UTF-16 code units, which is what \<open>length\<close> and
  \<open>substring\<close> count. \<open>str\<close> writes an ASCII literal.
\<close>

type_synonym number = rat
type_synonym code_unit = "16 word"
type_synonym js_string = "code_unit list"
type_synonym Uint8Array = "8 word list"

definition str :: "string \<Rightarrow> js_string" where
  "str s = map of_char s"

text \<open>
  \<open>xs[n]\<close> for a number \<open>n\<close>: the element when \<open>n\<close> is an integer from \<open>0\<close> to
  \<open>length - 1\<close>, \<open>undefined\<close> (here \<open>None\<close>) for every other number.
\<close>

fun Array_get :: "'a list \<Rightarrow> number \<Rightarrow> 'a option" where
  "Array_get [] n = None"
| "Array_get (x # xs) n = (if n = 0 then Some x else Array_get xs (n - 1))"

subsection \<open>\<open>Set<number>\<close>\<close>

text \<open>
  A \<open>Set\<close> keeps its members in insertion order, without repetition: a list.
  \<open>Set_new\<close> is \<open>new Set(iterable)\<close>, which adds the elements one by one.
\<close>

type_synonym 'a js_set = "'a list"

definition Set_has :: "'a js_set \<Rightarrow> 'a \<Rightarrow> bool" where
  "Set_has s x = (x \<in> set s)"

definition Set_add :: "'a js_set \<Rightarrow> 'a \<Rightarrow> 'a js_set" where
  "Set_add s x = (if Set_has s x then s else s @ [x])"

definition Set_delete :: "'a js_set \<Rightarrow> 'a \<Rightarrow> 'a js_set" where
  "Set_delete s x = filter (\<lambda>y. y \<noteq> x) s"

definition Set_size :: "'a js_set \<Rightarrow> nat" where
  "Set_size s = length s"

definition Set_new :: "'a list \<Rightarrow> 'a js_set" where
  "Set_new xs = foldl Set_add [] xs"

definition Array_from :: "'a js_set \<Rightarrow> 'a list" where
  "Array_from s = s"

section \<open>types.ts\<close>

record PDFPagePreview =
  index :: number
  thumbnail :: js_string
  textContent :: js_string

record PDFData =
  name :: js_string
  size_pdf :: nat
  pages :: "PDFPagePreview list"
  rawBytes :: Uint8Array

datatype AppStatus = IDLE | LOADING | READY | PROCESSING

section \<open>pdfService\<close>

datatype error = LoadError | RenderError | QueryError | ExtractError

text \<open>A \<open>File\<close>, with the bytes that \<open>arrayBuffer\<close> reads from it.\<close>

record File =
  file_name :: js_string
  file_size :: nat
  file_bytes :: Uint8Array

subsection \<open>The rendering library, as \<open>parsePDF\<close> uses it\<close>

text \<open>
  What the rendering library does with one page of an opened document:
  \<open>getPage\<close> rejects, \<open>render\<close> rejects, \<open>getTextContent\<close> rejects after the
  canvas gave the thumbnail, or the page yields a thumbnail and its text items.
  The last three are reached only with a canvas context: without one the loop body
  does nothing more for the page.
  \<open>getDocument\<close> is a partial map from bytes to the pages of the document they
  hold: bytes outside its domain are those the library rejects. It is handed the
  array itself, not a copy, and \<open>parsePDF\<close> stores that same array as \<open>rawBytes\<close>:
  the second component is what the array holds once the document is open. The
  library transfers the buffer of the array to its worker, which leaves the array
  empty.
  The canvas is the browser's: \<open>ctx_null\<close> is the set of loop counters at which
  \<open>canvas.getContext('2d')\<close> returns \<open>null\<close>.
\<close>

datatype pdfjs_page =
    GetPageRejects
  | RenderRejects
  | TextRejects js_string
  | Rendered js_string "js_string list"

text \<open>A page that the library opens, renders and reads without rejecting.\<close>

fun renders :: "pdfjs_page \<Rightarrow> bool" where
  "renders (Rendered thumb items) = True"
| "renders _ = False"

definition getPage :: "pdfjs_page list \<Rightarrow> nat \<Rightarrow> pdfjs_page" where
  "getPage pdf i = (if 1 \<le> i \<and> i \<le> length pdf then pdf ! (i - 1) else GetPageRejects)"

fun join :: "js_string \<Rightarrow> js_string list \<Rightarrow> js_string" where
  "join sep [] = []"
| "join sep [x] = x"
| "join sep (x # y # ys) = x @ sep @ join sep (y # ys)"

function parsePDF_loop ::
  "pdfjs_page list \<Rightarrow> nat set \<Rightarrow> nat \<Rightarrow> PDFPagePreview list \<Rightarrow> error + PDFPagePreview list"
where
  "parsePDF_loop pdf ctx_null i acc =
     (if i \<le> length pdf then
        (case getPage pdf i of
           GetPageRejects \<Rightarrow> Inl RenderError
         | RenderRejects \<Rightarrow>
             if i \<notin> ctx_null then Inl RenderError
             else parsePDF_loop pdf ctx_null (i + 1) acc
         | TextRejects thumb \<Rightarrow>
             if i \<notin> ctx_null then Inl RenderError
             else parsePDF_loop pdf ctx_null (i + 1) acc
         | Rendered thumb items \<Rightarrow>
             if i \<notin> ctx_null then
               parsePDF_loop pdf ctx_null (i + 1)
                 (acc @ [\<lparr>index = of_nat i - 1, thumbnail = thumb,
                          textContent = join (str '' '') items\<rparr>])
             else parsePDF_loop pdf ctx_null (i + 1) acc)
      else Inr acc)"
  by pat_completeness auto
termination
  by (relation "measure (\<lambda>(pdf, ctx_null, i, acc). Suc (length pdf) - i)") auto

declare parsePDF_loop.simps [simp del]

definition parsePDF ::
  "(Uint8Array \<rightharpoonup> pdfjs_page list \<times> Uint8Array) \<Rightarrow> nat set \<Rightarrow> File
     \<Rightarrow> error + PDFData"
where
  "parsePDF getDocument ctx_null file =
     (let bytes = file_bytes file
      in case getDocument bytes of
           None \<Rightarrow> Inl LoadError
         | Some (pdf, bytes_after) \<Rightarrow>
             (case parsePDF_loop pdf ctx_null 1 [] of
                Inl e \<Rightarrow> Inl e
              | Inr ps \<Rightarrow>
                  Inr \<lparr>name = file_name file, size_pdf = file_size file,
                       pages = ps, rawBytes = bytes_after\<rparr>))"

subsection \<open>The document library, as \<open>extractPages\<close> uses it\<close>

text \<open>
  A document of the writing library is the list of its pages, of any type \<open>'p\<close>.
  \<open>load\<close> is a partial map from bytes to documents (bytes outside its domain are
  rejected). \<open>extractPages\<close> takes the \<open>save\<close> of the document as a parameter;
  the one it calls is \<open>PDFDocument_save\<close> below.
  \<open>copyPages\<close> reads \<open>srcPages[indices[idx]]\<close> for each position in turn and uses
  the page it finds; on \<open>undefined\<close> that use throws. \<open>addPage\<close> appends, and
  \<open>forEach\<close> visits the copies from first to last.
\<close>

fun copyPages :: "'p list \<Rightarrow> number list \<Rightarrow> 'p list option" where
  "copyPages srcPages [] = Some []"
| "copyPages srcPages (n # ns) =
     (case Array_get srcPages n of
        None \<Rightarrow> None
      | Some srcPage \<Rightarrow>
          (case copyPages srcPages ns of
             None \<Rightarrow> None
           | Some copiedPages \<Rightarrow> Some (srcPage # copiedPages)))"

definition PDFDocument_create :: "'p list" where
  "PDFDocument_create = []"

definition addPage :: "'p list \<Rightarrow> 'p \<Rightarrow> 'p list" where
  "addPage doc page = doc @ [page]"

text \<open>
  \<open>save()\<close> of the library, called without options as \<open>extractPages\<close> calls it:
  the option \<open>addDefaultPage\<close> is on, so a document that has no page gets one blank
  page, and then the document is written. \<open>serialize\<close> is the writer and \<open>blank\<close>
  the blank page.
\<close>

definition PDFDocument_save :: "('p list \<Rightarrow> Uint8Array) \<Rightarrow> 'p \<Rightarrow> 'p list \<Rightarrow> Uint8Array" where
  "PDFDocument_save serialize blank doc =
     serialize (if length doc = 0 then addPage doc blank else doc)"

definition extractPages ::
  "(Uint8Array \<rightharpoonup> 'p list) \<Rightarrow> ('p list \<Rightarrow> Uint8Array) \<Rightarrow> Uint8Array \<Rightarrow> number list
     \<Rightarrow> error + Uint8Array"
where
  "extractPages load save originalBytes pageIndices =
     (case load originalBytes of
        None \<Rightarrow> Inl ExtractError
      | Some pdfDoc \<Rightarrow>
          (case copyPages pdfDoc pageIndices of
             None \<Rightarrow> Inl ExtractError
           | Some copiedPages \<Rightarrow>
               Inr (save (foldl addPage PDFDocument_create copiedPages))))"

section \<open>geminiService\<close>

subsection \<open>\<open>JSON.parse\<close>\<close>

text \<open>
  The host's \<open>JSON.parse\<close>, after the JSON grammar of the language standard: a text
  is cut into tokens (punctuators, strings, numbers, \<open>null\<close>, \<open>true\<close>, \<open>false\<close>,
  with white space between them) and the tokens are read by a push-down automaton.
  \<open>None\<close> is the \<open>SyntaxError\<close> it throws. A number token has the value of its
  decimal numeral, which is the number the host makes of it whenever that value is a
  binary64 number (every integer of at most 15 digits is); the rounding of the other
  numerals is not modelled. An object keeps its members as written, in order.
\<close>

datatype json =
    JNull
  | JBool bool
  | JNumber number
  | JString js_string
  | JArray "json list"
  | JObject "(js_string \<times> json) list"

datatype token = LBracket | RBracket | LBrace | RBrace | Comma | Colon | Scalar json

definition is_ws :: "code_unit \<Rightarrow> bool" where
  "is_ws c = (c = 0x09 \<or> c = 0x0A \<or> c = 0x0D \<or> c = 0x20)"

definition is_digit :: "code_unit \<Rightarrow> bool" where
  "is_digit c = (0x30 \<le> c \<and> c \<le> 0x39)"

definition digits_val :: "code_unit list \<Rightarrow> nat" where
  "digits_val ds = foldl (\<lambda>a d. 10 * a + (unat d - 48)) 0 ds"

definition hex_val :: "code_unit \<Rightarrow> nat option" where
  "hex_val c =
     (if 0x30 \<le> c \<and> c \<le> 0x39 then Some (unat c - 48)
      else if 0x41 \<le> c \<and> c \<le> 0x46 then Some (unat c - 55)
      else if 0x61 \<le> c \<and> c \<le> 0x66 then Some (unat c - 87)
      else None)"

definition hex4 :: "code_unit \<Rightarrow> code_unit \<Rightarrow> code_unit \<Rightarrow> code_unit \<Rightarrow> code_unit option" where
  "hex4 a b c d =
     (case (hex_val a, hex_val b, hex_val c, hex_val d) of
        (Some x, Some y, Some z, Some w) \<Rightarrow> Some (of_nat (((x * 16 + y) * 16 + z) * 16 + w))
      | _ \<Rightarrow> None)"

definition unescape :: "code_unit \<Rightarrow> code_unit option" where
  "unescape e =
     (if e = 0x22 \<or> e = 0x5C \<or> e = 0x2F then Some e
      else if e = 0x62 then Some 0x08
      else if e = 0x66 then Some 0x0C
      else if e = 0x6E then Some 0x0A
      else if e = 0x72 then Some 0x0D
      else if e = 0x74 then Some 0x09
      else None)"

fun lex_string :: "js_string \<Rightarrow> js_string \<Rightarrow> (js_string \<times> js_string) option" where
  "lex_string acc [] = None"
| "lex_string acc (c # cs) =
     (if c = 0x22 then Some (rev acc, cs)
      else if c = 0x5C then
        (case cs of
           [] \<Rightarrow> None
         | e # es \<Rightarrow>
             if e = 0x75 then
               (case es of
                  a # b # c # d # rest \<Rightarrow>
                    (case hex4 a b c d of
                       None \<Rightarrow> None
                     | Some u \<Rightarrow> lex_string (u # acc) rest)
                | _ \<Rightarrow> None)
             else
               (case unescape e of
                  None \<Rightarrow> None
                | Some u \<Rightarrow> lex_string (u # acc) es))
      else if c < 0x20 then None
      else lex_string (c # acc) cs)"

definition lex_fraction :: "js_string \<Rightarrow> (js_string \<times> js_string) option" where
  "lex_fraction r =
     (case r of
        [] \<Rightarrow> Some ([], r)
      | c # r' \<Rightarrow>
          if c = 0x2E then
            (if takeWhile is_digit r' = [] then None
             else Some (takeWhile is_digit r', dropWhile is_digit r'))
          else Some ([], r))"

definition lex_sign :: "js_string \<Rightarrow> bool \<times> js_string" where
  "lex_sign r =
     (case r of
        [] \<Rightarrow> (False, r)
      | c # r' \<Rightarrow> if c = 0x2D then (True, r') else if c = 0x2B then (False, r') else (False, r))"

definition lex_exponent :: "js_string \<Rightarrow> (int \<times> js_string) option" where
  "lex_exponent r =
     (case r of
        [] \<Rightarrow> Some (0, r)
      | c # r' \<Rightarrow>
          if c = 0x65 \<or> c = 0x45 then
            (case lex_sign r' of (neg, r'') \<Rightarrow>
               if takeWhile is_digit r'' = [] then None
               else Some ((if neg then - int (digits_val (takeWhile is_digit r''))
                           else int (digits_val (takeWhile is_digit r''))),
                          dropWhile is_digit r''))
          else Some (0, r))"

definition pow10 :: "int \<Rightarrow> number" where
  "pow10 e = (if 0 \<le> e then 10 ^ nat e else 1 / 10 ^ nat (- e))"

definition lex_number :: "js_string \<Rightarrow> (number \<times> js_string) option" where
  "lex_number cs =
     (case (case cs of [] \<Rightarrow> (False, cs) | c # r \<Rightarrow> if c = 0x2D then (True, r) else (False, cs)) of
        (neg, r0) \<Rightarrow>
          (let ip = takeWhile is_digit r0
           in if ip = [] \<or> (1 < length ip \<and> hd ip = 0x30) then None
              else
                (case lex_fraction (dropWhile is_digit r0) of
                   None \<Rightarrow> None
                 | Some (fp, r2) \<Rightarrow>
                     (case lex_exponent r2 of
                        None \<Rightarrow> None
                      | Some (ex, r3) \<Rightarrow>
                          Some ((if neg then - 1 else 1)
                                  * (of_nat (digits_val (ip @ fp)) / 10 ^ length fp) * pow10 ex,
                                r3)))))"

text \<open>
  What is left of the text after a string or a number token is shorter than the
  text, which is why cutting into tokens ends.
\<close>

lemma lex_string_shorter: "lex_string acc cs = Some (s, rest) \<Longrightarrow> length rest < length cs"
proof (induction acc cs rule: lex_string.induct)
  case (1 acc)
  then show ?case by simp
next
  case (2 acc c cs)
  show ?case
  proof (cases "c = 0x22")
    case True
    with 2 show ?thesis by simp
  next
    case q: False
    show ?thesis
    proof (cases "c = 0x5C")
      case True
      show ?thesis
      proof (cases cs)
        case Nil
        with 2 q True show ?thesis by simp
      next
        case (Cons e es)
        show ?thesis
        proof (cases "e = 0x75")
          case u: True
          from "2.prems" q True Cons u obtain a b c' d r v where
            es: "es = a # b # c' # d # r" and h: "hex4 a b c' d = Some v"
            and l: "lex_string (v # acc) r = Some (s, rest)"
            by (auto split: list.splits option.splits)
          from "2.IH"(1)[OF q True Cons u es _ _ _ h l] have "length rest < length r" by simp
          with es Cons show ?thesis by simp
        next
          case nu: False
          from "2.prems" q True Cons nu obtain v where h: "unescape e = Some v"
            and l: "lex_string (v # acc) es = Some (s, rest)"
            by (auto split: option.splits)
          from "2.IH"(2)[OF q True Cons nu h l] have "length rest < length es" .
          with Cons show ?thesis by simp
        qed
      qed
    next
      case nb: False
      with 2 q have "\<not> c < 0x20" and l: "lex_string (c # acc) cs = Some (s, rest)"
        by (auto split: if_splits)
      from "2.IH"(3)[OF q nb this] show ?thesis by simp
    qed
  qed
qed

lemma dropWhile_shorter: "takeWhile P xs \<noteq> [] \<Longrightarrow> length (dropWhile P xs) < length xs"
  by (cases xs) (auto split: if_splits intro: le_imp_less_Suc length_dropWhile_le)

lemma lex_fraction_shorter: "lex_fraction r = Some (fp, r2) \<Longrightarrow> length r2 \<le> length r"
  by (cases r) (auto simp: lex_fraction_def split: if_splits intro: le_SucI length_dropWhile_le)

lemma lex_sign_shorter: "lex_sign r = (b, r') \<Longrightarrow> length r' \<le> length r"
  by (cases r) (auto simp: lex_sign_def split: if_splits)

lemma lex_exponent_shorter: "lex_exponent r = Some (ex, r3) \<Longrightarrow> length r3 \<le> length r"
proof (cases r)
  case Nil
  assume "lex_exponent r = Some (ex, r3)"
  with Nil show ?thesis by (simp add: lex_exponent_def)
next
  case (Cons c r')
  assume a: "lex_exponent r = Some (ex, r3)"
  obtain neg r'' where s: "lex_sign r' = (neg, r'')" by (cases "lex_sign r'")
  have le: "length r'' \<le> length r'" using lex_sign_shorter[OF s] .
  have "r3 = r \<or> r3 = dropWhile is_digit r''"
    using a Cons s by (auto simp: lex_exponent_def split: if_splits)
  moreover have "length (dropWhile is_digit r'') \<le> length r''" by (rule length_dropWhile_le)
  ultimately show ?thesis using le Cons by auto
qed

lemma lex_number_shorter:
  assumes "lex_number cs = Some (n, rest)"
  shows "length rest < length cs"
proof -
  obtain neg r0 where s: "(case cs of [] \<Rightarrow> (False, cs) | c # r \<Rightarrow> if c = 0x2D then (True, r) else (False, cs)) = (neg, r0)"
    by (cases "(case cs of [] \<Rightarrow> (False, cs) | c # r \<Rightarrow> if c = 0x2D then (True, r) else (False, cs))")
  have r0: "length r0 \<le> length cs" using s by (cases cs) (auto split: if_splits)
  from assms s have ip: "takeWhile is_digit r0 \<noteq> []"
    by (auto simp: lex_number_def Let_def split: if_splits)
  from assms s ip obtain fp r2 ex where f: "lex_fraction (dropWhile is_digit r0) = Some (fp, r2)"
    and e: "lex_exponent r2 = Some (ex, rest)"
    by (auto simp: lex_number_def Let_def split: if_splits option.splits)
  from dropWhile_shorter[OF ip] lex_fraction_shorter[OF f] lex_exponent_shorter[OF e] r0
  show ?thesis by simp
qed

function tokenize :: "js_string \<Rightarrow> token list option" where
  "tokenize [] = Some []"
| "tokenize (c # cs) =
     (if is_ws c then tokenize cs
      else if c = 0x5B then map_option ((#) LBracket) (tokenize cs)
      else if c = 0x5D then map_option ((#) RBracket) (tokenize cs)
      else if c = 0x7B then map_option ((#) LBrace) (tokenize cs)
      else if c = 0x7D then map_option ((#) RBrace) (tokenize cs)
      else if c = 0x2C then map_option ((#) Comma) (tokenize cs)
      else if c = 0x3A then map_option ((#) Colon) (tokenize cs)
      else if c = 0x22 then
        (case lex_string [] cs of
           None \<Rightarrow> None
         | Some (s, rest) \<Rightarrow> map_option ((#) (Scalar (JString s))) (tokenize rest))
      else if c = 0x2D \<or> is_digit c then
        (case lex_number (c # cs) of
           None \<Rightarrow> None
         | Some (n, rest) \<Rightarrow> map_option ((#) (Scalar (JNumber n))) (tokenize rest))
      else if take 4 (c # cs) = str ''true'' then
        map_option ((#) (Scalar (JBool True))) (tokenize (drop 3 cs))
      else if take 5 (c # cs) = str ''false'' then
        map_option ((#) (Scalar (JBool False))) (tokenize (drop 4 cs))
      else if take 4 (c # cs) = str ''null'' then
        map_option ((#) (Scalar JNull)) (tokenize (drop 3 cs))
      else None)"
  by pat_completeness simp_all
termination
proof (relation "measure length", goal_cases)
  case 1
  show ?case by simp
next
  case (9 c cs x2 x y)
  then have "lex_string [] cs = Some (x, y)" by simp
  from lex_string_shorter[OF this] show ?case by simp
next
  case (10 c cs x2 x y)
  then have "lex_number (c # cs) = Some (x, y)" by simp
  from lex_number_shorter[OF this] show ?case by simp
qed simp_all

text \<open>
  The automaton: a stack of the arrays and objects that are open, and what may come
  next. A closed value is delivered to the container below it, or is the result.
\<close>

datatype frame =
    InArray "json list"
  | InObject "(js_string \<times> json) list"
  | InMember "(js_string \<times> json) list" js_string

datatype expect =
    Value
  | ValueOrClose
  | KeyOrClose
  | Key
  | ColonNext
  | CommaOrClose
  | Finished json

fun deliver :: "json \<Rightarrow> frame list \<Rightarrow> (expect \<times> frame list) option" where
  "deliver v [] = Some (Finished v, [])"
| "deliver v (InArray xs # st) = Some (CommaOrClose, InArray (v # xs) # st)"
| "deliver v (InMember ms k # st) = Some (CommaOrClose, InObject ((k, v) # ms) # st)"
| "deliver v (InObject ms # st) = None"

fun open_value :: "frame list \<Rightarrow> token \<Rightarrow> (expect \<times> frame list) option" where
  "open_value st (Scalar v) = deliver v st"
| "open_value st LBracket = Some (ValueOrClose, InArray [] # st)"
| "open_value st LBrace = Some (KeyOrClose, InObject [] # st)"
| "open_value st _ = None"

definition member_key :: "frame list \<Rightarrow> token \<Rightarrow> (expect \<times> frame list) option" where
  "member_key st t =
     (case (st, t) of
        (InObject ms # r, Scalar (JString k)) \<Rightarrow> Some (ColonNext, InMember ms k # r)
      | _ \<Rightarrow> None)"

definition close_array :: "frame list \<Rightarrow> (expect \<times> frame list) option" where
  "close_array st = (case st of InArray xs # r \<Rightarrow> deliver (JArray (rev xs)) r | _ \<Rightarrow> None)"

definition close_object :: "frame list \<Rightarrow> (expect \<times> frame list) option" where
  "close_object st = (case st of InObject ms # r \<Rightarrow> deliver (JObject (rev ms)) r | _ \<Rightarrow> None)"

definition next_member :: "frame list \<Rightarrow> (expect \<times> frame list) option" where
  "next_member st =
     (case st of
        InArray xs # r \<Rightarrow> Some (Value, st)
      | InObject ms # r \<Rightarrow> Some (Key, st)
      | _ \<Rightarrow> None)"

definition parse_step :: "expect \<times> frame list \<Rightarrow> token \<Rightarrow> (expect \<times> frame list) option" where
  "parse_step s t =
     (case s of
        (Value, st) \<Rightarrow> open_value st t
      | (ValueOrClose, st) \<Rightarrow> (case t of RBracket \<Rightarrow> close_array st | _ \<Rightarrow> open_value st t)
      | (KeyOrClose, st) \<Rightarrow> (case t of RBrace \<Rightarrow> close_object st | _ \<Rightarrow> member_key st t)
      | (Key, st) \<Rightarrow> member_key st t
      | (ColonNext, st) \<Rightarrow> (case t of Colon \<Rightarrow> Some (Value, st) | _ \<Rightarrow> None)
      | (CommaOrClose, st) \<Rightarrow>
          (case t of
             Comma \<Rightarrow> next_member st
           | RBracket \<Rightarrow> close_array st
           | RBrace \<Rightarrow> close_object st
           | _ \<Rightarrow> None)
      | (Finished v, st) \<Rightarrow> None)"

fun parse_tokens :: "expect \<times> frame list \<Rightarrow> token list \<Rightarrow> (expect \<times> frame list) option" where
  "parse_tokens s [] = Some s"
| "parse_tokens s (t # ts) =
     (case parse_step s t of None \<Rightarrow> None | Some s' \<Rightarrow> parse_tokens s' ts)"

definition JSON_parse :: "js_string \<Rightarrow> json option" where
  "JSON_parse text =
     (case tokenize text of
        None \<Rightarrow> None
      | Some ts \<Rightarrow>
          (case parse_tokens (Value, []) ts of
             Some (Finished v, []) \<Rightarrow> Some v
           | _ \<Rightarrow> None))"

subsection \<open>\<open>suggestPagesByQuery\<close>\<close>

text \<open>
  The request carries the query and \<open>pageData\<close> (the source writes both into one
  prompt string). The service is a partial map from requests to responses: for a
  request outside its domain the call rejects. \<open>response_text\<close> is \<open>response.text\<close>,
  which may be \<open>undefined\<close>.
\<close>

definition substring :: "js_string \<Rightarrow> nat \<Rightarrow> nat \<Rightarrow> js_string" where
  "substring s indexStart indexEnd =
     take (max indexStart indexEnd - min indexStart indexEnd) (drop (min indexStart indexEnd) s)"

record page_excerpt =
  index_x :: number
  content :: js_string

record GenerateContentParameters =
  req_query :: js_string
  req_data :: "page_excerpt list"

record GenerateContentResponse =
  response_text :: "js_string option"

definition pageData :: "PDFPagePreview list \<Rightarrow> page_excerpt list" where
  "pageData ps = map (\<lambda>p. \<lparr>index_x = index p, content = substring (textContent p) 0 500\<rparr>) ps"

fun Array_isArray :: "json \<Rightarrow> bool" where
  "Array_isArray (JArray items) = True"
| "Array_isArray _ = False"

text \<open>\<open>typeof item === 'number'\<close>, and \<open>parsed.filter\<close> with it.\<close>

fun typeof_number :: "json \<Rightarrow> bool" where
  "typeof_number (JNumber n) = True"
| "typeof_number _ = False"

fun filter_number :: "json list \<Rightarrow> number list" where
  "filter_number [] = []"
| "filter_number (JNumber n # items) = n # filter_number items"
| "filter_number (_ # items) = filter_number items"

definition suggestPagesByQuery ::
  "(GenerateContentParameters \<rightharpoonup> GenerateContentResponse) \<Rightarrow> js_string
     \<Rightarrow> PDFPagePreview list \<Rightarrow> error + number list"
where
  "suggestPagesByQuery generateContent query ps =
     (case generateContent \<lparr>req_query = query, req_data = pageData ps\<rparr> of
        None \<Rightarrow> Inl QueryError
      | Some response \<Rightarrow>
          (case response_text response of
             None \<Rightarrow> Inr []
           | Some t \<Rightarrow>
               if t = [] then Inr []
               else
                 (case JSON_parse t of
                    None \<Rightarrow> Inr []
                  | Some parsed \<Rightarrow>
                      (case parsed of
                         JArray items \<Rightarrow> Inr (filter_number items)
                       | _ \<Rightarrow> Inr []))))"

section \<open>The application state and its handlers\<close>

text \<open>
  The six \<open>useState\<close> cells of \<open>App\<close>. A handler is a function from the state in which
  it is invoked to the state once it has finished.
\<close>

record App =
  status :: AppStatus
  pdfData :: "PDFData option"
  selectedIndices :: "number js_set"
  aiQuery :: js_string
  isAiLoading :: bool
  error :: "js_string option"

definition togglePageSelection :: "number \<Rightarrow> App \<Rightarrow> App" where
  "togglePageSelection i st =
     st\<lparr>selectedIndices :=
          (let next = selectedIndices st
           in if Set_has next i then Set_delete next i else Set_add next i)\<rparr>"

definition handleFileSelect ::
  "(Uint8Array \<rightharpoonup> pdfjs_page list \<times> Uint8Array) \<Rightarrow> nat set \<Rightarrow> File \<Rightarrow> App
     \<Rightarrow> App"
where
  "handleFileSelect getDocument ctx_null file st =
     (case parsePDF getDocument ctx_null file of
        Inr d \<Rightarrow>
          st\<lparr>error := None, pdfData := Some d, status := READY, selectedIndices := Set_new []\<rparr>
      | Inl err \<Rightarrow>
          st\<lparr>error := Some (str ''Failed to process PDF. Please try another file.''),
             status := IDLE\<rparr>)"

definition handleSelectAll :: "App \<Rightarrow> App" where
  "handleSelectAll st =
     (case pdfData st of
        None \<Rightarrow> st
      | Some d \<Rightarrow>
          if Set_size (selectedIndices st) = length (pages d)
          then st\<lparr>selectedIndices := Set_new []\<rparr>
          else st\<lparr>selectedIndices := Set_new (map index (pages d))\<rparr>)"

text \<open>\<open>trim\<close> removes the white space and line terminators of the language at both ends.\<close>

definition is_space :: "code_unit \<Rightarrow> bool" where
  "is_space c =
     (c \<in> {0x09, 0x0A, 0x0B, 0x0C, 0x0D, 0x20, 0xA0, 0x1680, 0x2028, 0x2029, 0x202F,
            0x205F, 0x3000, 0xFEFF}
      \<or> (0x2000 \<le> c \<and> c \<le> 0x200A))"

definition trim :: "js_string \<Rightarrow> js_string" where
  "trim s = rev (dropWhile is_space (rev (dropWhile is_space s)))"

definition handleAiSearch ::
  "(GenerateContentParameters \<rightharpoonup> GenerateContentResponse) \<Rightarrow> App \<Rightarrow> App"
where
  "handleAiSearch generateContent st =
     (case pdfData st of
        None \<Rightarrow> st
      | Some d \<Rightarrow>
          if trim (aiQuery st) = [] \<or> isAiLoading st then st
          else
            (case suggestPagesByQuery generateContent (aiQuery st) (pages d) of
               Inr suggestedIndices \<Rightarrow>
                 st\<lparr>selectedIndices := Set_new suggestedIndices, isAiLoading := False\<rparr>
             | Inl err \<Rightarrow>
                 st\<lparr>error := Some (str ''AI Search failed. Please try again.''),
                    isAiLoading := False\<rparr>))"

text \<open>
  \<open>handleDownload\<close> also hands a file to the browser: the second component is the
  link it clicks, its \<open>download\<close> name and the bytes behind its \<open>href\<close>.
\<close>

record download_link =
  download :: js_string
  href :: Uint8Array

definition handleDownload ::
  "(Uint8Array \<rightharpoonup> 'p list) \<Rightarrow> ('p list \<Rightarrow> Uint8Array) \<Rightarrow> App
     \<Rightarrow> App \<times> download_link option"
where
  "handleDownload load save st =
     (case pdfData st of
        None \<Rightarrow> (st, None)
      | Some d \<Rightarrow>
          if Set_size (selectedIndices st) = 0 then (st, None)
          else
            (let sortedIndices = sort (Array_from (selectedIndices st))
             in case extractPages load save (rawBytes d) sortedIndices of
                  Inr newPdfBytes \<Rightarrow>
                    (st\<lparr>status := READY\<rparr>,
                     Some \<lparr>download = str ''extracted_'' @ name d, href = newPdfBytes\<rparr>)
                | Inl err \<Rightarrow>
                    (st\<lparr>error := Some (str ''Failed to generate PDF.''), status := READY\<rparr>,
                     None)))"

definition reset :: "App \<Rightarrow> App" where
  "reset st =
     st\<lparr>pdfData := None, selectedIndices := Set_new [], status := IDLE, aiQuery := [],
        error := None\<rparr>"

section \<open>Selection\<close>

text \<open>Membership after \<open>add\<close> and \<open>delete\<close>; both keep the list without repetition.\<close>

lemma Set_has_add: "Set_has (Set_add s x) y = (y = x \<or> Set_has s y)"
  by (auto simp: Set_has_def Set_add_def)

lemma Set_has_delete: "Set_has (Set_delete s x) y = (y \<noteq> x \<and> Set_has s y)"
  by (auto simp: Set_has_def Set_delete_def)

lemma distinct_Set_add: "distinct s \<Longrightarrow> distinct (Set_add s x)"
  by (simp add: Set_has_def Set_add_def)

lemma distinct_Set_delete: "distinct s \<Longrightarrow> distinct (Set_delete s x)"
  by (simp add: Set_delete_def)

text \<open>
  C6. Toggling an index twice gives a selection in which every index, the toggled one
  and every other one, is a member exactly when it was a member before.
\<close>

theorem toggle_twice_membership:
  "Set_has (selectedIndices (togglePageSelection i (togglePageSelection i st))) j
     = Set_has (selectedIndices st) j"
  by (auto simp: togglePageSelection_def Let_def Set_has_add Set_has_delete)

section \<open>Loading\<close>

text \<open>
  When the loop returns, the indices of the records it appended are the physical page
  numbers minus one of the loop counters that had a canvas context, in loop order.
\<close>

lemma parsePDF_loop_indices:
  "parsePDF_loop pdf ctx_null i acc = Inr ps \<Longrightarrow>
     map index ps =
       map index acc @ map (\<lambda>k. of_nat k - 1) (filter (\<lambda>k. k \<notin> ctx_null) [i..<Suc (length pdf)])"
proof (induction pdf ctx_null i acc arbitrary: ps rule: parsePDF_loop.induct)
  case (1 pdf ctx_null i acc)
  show ?case
  proof (cases "i \<le> length pdf")
    case False
    with "1.prems" show ?thesis by (simp add: parsePDF_loop.simps[of pdf ctx_null i])
  next
    case le: True
    then have upt: "[i..<Suc (length pdf)] = i # [i + 1..<Suc (length pdf)]"
      by (simp add: upt_conv_Cons)
    note run = "1.prems"[unfolded parsePDF_loop.simps[of pdf ctx_null i acc]]
    show ?thesis
    proof (cases "getPage pdf i")
      case GetPageRejects
      with run le show ?thesis by simp
    next
      case RenderRejects
      with run le "1.IH"(1)[OF le RenderRejects] show ?thesis
        unfolding upt by (simp del: upt_Suc split: if_splits)
    next
      case (TextRejects t)
      with run le "1.IH"(2)[OF le TextRejects] show ?thesis
        unfolding upt by (simp del: upt_Suc split: if_splits)
    next
      case (Rendered thumb items)
      with run le "1.IH"(3)[OF le Rendered] "1.IH"(4)[OF le Rendered] show ?thesis
        unfolding upt by (simp del: upt_Suc split: if_splits)
    qed
  qed
qed

lemma parsePDF_loop_returns:
  "list_all renders pdf \<Longrightarrow> 1 \<le> i \<Longrightarrow> \<exists>ps. parsePDF_loop pdf ctx_null i acc = Inr ps"
proof (induction pdf ctx_null i acc rule: parsePDF_loop.induct)
  case (1 pdf ctx_null i acc)
  show ?case
  proof (cases "i \<le> length pdf")
    case False
    then show ?thesis by (simp add: parsePDF_loop.simps[of pdf ctx_null i])
  next
    case le: True
    with "1.prems" have "renders (pdf ! (i - 1))" by (simp add: list_all_length)
    then obtain thumb items where g: "getPage pdf i = Rendered thumb items"
      using le "1.prems"(2) by (cases "pdf ! (i - 1)") (auto simp: getPage_def)
    from "1.IH"(3)[OF le g _ "1.prems"(1)] "1.IH"(4)[OF le g _ "1.prems"(1)] g le
    show ?thesis
      by (cases "i \<in> ctx_null") (simp_all add: parsePDF_loop.simps[of pdf ctx_null i acc])
  qed
qed

lemma physical_indices_increasing:
  "sorted_wrt (<) (map (\<lambda>k. rat_of_nat k - 1) (filter P [i..<j]))"
  by (simp add: sorted_wrt_map sorted_wrt_filter)

lemma physical_indices_all:
  "map (\<lambda>k. rat_of_nat k - 1) [1..<Suc n] = map rat_of_nat [0..<n]"
  by (rule nth_equalityI) (simp_all del: upt_Suc)

text \<open>
  C1, as the code has it. For a document all of whose pages the library renders,
  \<open>parsePDF\<close> returns, with one record for each page whose loop counter had a canvas
  context, of index the physical page number minus one, in strictly increasing order.
  When every one of the \<open>P\<close> loop counters had a context these are exactly \<open>P\<close>
  records of indices \<open>0\<close> to \<open>P - 1\<close>.
\<close>

theorem parsePDF_page_records:
  assumes "getDocument (file_bytes file) = Some (pdf, bytes_after)"
    and "list_all renders pdf"
  shows "\<exists>d. parsePDF getDocument ctx_null file = Inr d \<and>
           map index (pages d) =
             map (\<lambda>k. of_nat k - 1) (filter (\<lambda>k. k \<notin> ctx_null) [1..<Suc (length pdf)]) \<and>
           sorted_wrt (<) (map index (pages d)) \<and>
           (ctx_null \<inter> {1..length pdf} = {} \<longrightarrow>
              map index (pages d) = map of_nat [0..<length pdf])"
proof -
  from parsePDF_loop_returns[OF assms(2), of 1 ctx_null "[]"]
  obtain ps where run: "parsePDF_loop pdf ctx_null 1 [] = Inr ps" by auto
  let ?d = "\<lparr>name = file_name file, size_pdf = file_size file, pages = ps,
              rawBytes = bytes_after\<rparr>"
  have d: "parsePDF getDocument ctx_null file = Inr ?d"
    using assms(1) run by (simp add: parsePDF_def)
  have ix: "map index ps =
      map (\<lambda>k. of_nat k - 1) (filter (\<lambda>k. k \<notin> ctx_null) [1..<Suc (length pdf)])"
    using parsePDF_loop_indices[OF run] by simp
  have inc: "sorted_wrt (<) (map index ps)"
    unfolding ix by (rule physical_indices_increasing)
  have all: "map index ps = map of_nat [0..<length pdf]" if "ctx_null \<inter> {1..length pdf} = {}"
  proof -
    have "filter (\<lambda>k. k \<notin> ctx_null) [1..<Suc (length pdf)] = [1..<Suc (length pdf)]"
      using that by (auto simp: filter_id_conv)
    with ix show ?thesis by (simp only: physical_indices_all)
  qed
  from d ix inc all show ?thesis by auto
qed

theorem parsePDF_page_records_witness:
  "[[1, 2, 3] \<mapsto> ([Rendered (str ''t1'') [str ''a''], Rendered (str ''t2'') [], Rendered [] [str ''b'', str ''c'']], [])]
      (file_bytes \<lparr>file_name = str ''f.pdf'', file_size = 3, file_bytes = [1, 2, 3]\<rparr>)
     = Some ([Rendered (str ''t1'') [str ''a''], Rendered (str ''t2'') [], Rendered [] [str ''b'', str ''c'']], [])
   \<and> list_all renders [Rendered (str ''t1'') [str ''a''], Rendered (str ''t2'') [], Rendered [] [str ''b'', str ''c'']]
   \<and> (\<exists>d. parsePDF [[1, 2, 3] \<mapsto> ([Rendered (str ''t1'') [str ''a''], Rendered (str ''t2'') [], Rendered [] [str ''b'', str ''c'']], [])] {}
            \<lparr>file_name = str ''f.pdf'', file_size = 3, file_bytes = [1, 2, 3]\<rparr> = Inr d
          \<and> map index (pages d) = [0, 1, 2])"
  using parsePDF_page_records[of
      "[[1, 2, 3] \<mapsto> ([Rendered (str ''t1'') [str ''a''], Rendered (str ''t2'') [], Rendered [] [str ''b'', str ''c'']], [])]"
      "\<lparr>file_name = str ''f.pdf'', file_size = 3, file_bytes = [1, 2, 3]\<rparr>"
      "[Rendered (str ''t1'') [str ''a''], Rendered (str ''t2'') [], Rendered [] [str ''b'', str ''c'']]"
      "[]" "{}"]
  by (auto simp: upt_conv_Cons)

text \<open>
  As the claim is written, every valid document of \<open>P\<close> pages gives \<open>P\<close> records. A
  valid document of two pages whose first loop counter gets no canvas context gives one
  record, of index \<open>1\<close>.
\<close>

theorem parsePDF_all_pages_counterexample:
  "list_all renders [Rendered (str ''t1'') [str ''a''], Rendered (str ''t2'') [str ''b'', str ''c'']]
   \<and> length [Rendered (str ''t1'') [str ''a''], Rendered (str ''t2'') [str ''b'', str ''c'']] = 2
   \<and> parsePDF [[1, 2, 3] \<mapsto> ([Rendered (str ''t1'') [str ''a''], Rendered (str ''t2'') [str ''b'', str ''c'']], [])] {1}
        \<lparr>file_name = str ''f.pdf'', file_size = 3, file_bytes = [1, 2, 3]\<rparr>
       = Inr \<lparr>name = str ''f.pdf'', size_pdf = 3,
              pages = [\<lparr>index = 1, thumbnail = str ''t2'', textContent = str ''b c''\<rparr>],
              rawBytes = []\<rparr>"
  by (simp add: parsePDF_def parsePDF_loop.simps getPage_def str_def)

section \<open>Extraction\<close>

text \<open>
  \<open>xs[n]\<close> is defined exactly for the numbers \<open>0\<close>, \<open>1\<close>, ... below the length, and
  \<open>copyPages\<close> succeeds exactly when every index it is given is one of them.
\<close>

lemma Array_get_of_nat:
  "Array_get xs (of_nat k) = (if k < length xs then Some (xs ! k) else None)"
proof (induction xs arbitrary: k)
  case Nil
  show ?case by simp
next
  case (Cons x xs)
  show ?case
  proof (cases k)
    case 0
    then show ?thesis by simp
  next
    case (Suc j)
    have a: "rat_of_nat (Suc j) - 1 = of_nat j" "rat_of_nat (Suc j) \<noteq> 0" by simp_all
    have "Array_get (x # xs) (of_nat (Suc j)) = Array_get xs (of_nat j)"
      by (simp only: Array_get.simps a if_False)
    with Cons[of j] Suc show ?thesis by simp
  qed
qed

lemma Array_get_in_range:
  "Array_get xs n = Some y \<Longrightarrow> \<exists>k<length xs. n = of_nat k"
proof (induction xs arbitrary: n)
  case Nil
  then show ?case by simp
next
  case (Cons x xs)
  show ?case
  proof (cases "n = 0")
    case True
    then show ?thesis by auto
  next
    case False
    with Cons.prems have "Array_get xs (n - 1) = Some y" by simp
    from Cons.IH[OF this] obtain k where "k < length xs" "n - 1 = of_nat k" by auto
    then have "Suc k < length (x # xs)" "n = of_nat (Suc k)" by (simp_all add: algebra_simps)
    then show ?thesis by blast
  qed
qed

lemma Array_get_None_iff:
  "Array_get xs n = None \<longleftrightarrow> n \<notin> of_nat ` {..<length xs}"
proof
  assume "Array_get xs n = None"
  then show "n \<notin> of_nat ` {..<length xs}" by (auto simp: Array_get_of_nat)
next
  assume "n \<notin> of_nat ` {..<length xs}"
  then show "Array_get xs n = None"
    using Array_get_in_range[of xs n] by (cases "Array_get xs n") auto
qed

lemma in_range_iff: "n \<in> of_nat ` {..<length xs} \<longleftrightarrow> Array_get xs n \<noteq> None"
  by (simp add: Array_get_None_iff)


lemma copyPages_out_of_range:
  "n \<in> set ns \<Longrightarrow> Array_get src n = None \<Longrightarrow> copyPages src ns = None"
  by (induction ns) (auto split: option.splits)


text \<open>
  An export with a selected index that is out of range: the extraction fails and
  \<open>handleDownload\<close> changes the error message and the status only.
\<close>

lemma export_out_of_range:
  assumes "pdfData st = Some d"
    and "load (rawBytes d) = Some pdfDoc"
    and "n \<in> set (selectedIndices st)"
    and "n \<notin> of_nat ` {..<length pdfDoc}"
  shows "extractPages load save (rawBytes d) (sort (Array_from (selectedIndices st)))
           = Inl ExtractError
         \<and> handleDownload load save st
           = (st\<lparr>error := Some (str ''Failed to generate PDF.''), status := READY\<rparr>, None)
         \<and> selectedIndices (fst (handleDownload load save st)) = selectedIndices st"
proof -
  have "n \<in> set (sort (Array_from (selectedIndices st)))"
    using assms(3) by (simp add: Array_from_def)
  moreover have "Array_get pdfDoc n = None"
    using assms(4) by (simp add: Array_get_None_iff)
  ultimately have "copyPages pdfDoc (sort (Array_from (selectedIndices st))) = None"
    by (rule copyPages_out_of_range)
  with assms(2) have x: "extractPages load save (rawBytes d)
      (sort (Array_from (selectedIndices st))) = Inl ExtractError"
    by (simp add: extractPages_def)
  have "Set_size (selectedIndices st) \<noteq> 0"
    using assms(3) by (auto simp: Set_size_def)
  with assms(1) x show ?thesis
    by (simp add: handleDownload_def Let_def)
qed



text \<open>
  C3. When the selection holds an index that is out of range for the document the
  library loads from the stored bytes, the extraction of the export fails with
  \<open>ExtractError\<close>; \<open>handleDownload\<close> records the message, returns to \<open>READY\<close>,
  offers no file and leaves the selection as it was.
\<close>

theorem handleDownload_out_of_range:
  assumes "pdfData st = Some d"
    and "load (rawBytes d) = Some pdfDoc"
    and "n \<in> set (selectedIndices st)"
    and "n \<notin> of_nat ` {..<length pdfDoc}"
  shows "extractPages load save (rawBytes d) (sort (Array_from (selectedIndices st)))
           = Inl ExtractError
         \<and> handleDownload load save st
           = (st\<lparr>error := Some (str ''Failed to generate PDF.''), status := READY\<rparr>, None)
         \<and> selectedIndices (fst (handleDownload load save st)) = selectedIndices st"
  using assms by (rule export_out_of_range)

theorem handleDownload_out_of_range_witness:
  "pdfData \<lparr>status = READY,
            pdfData = Some \<lparr>name = str ''f.pdf'', size_pdf = 5, pages = [], rawBytes = [1, 2, 3, 4, 5]\<rparr>,
            selectedIndices = [10], aiQuery = [], isAiLoading = False, error = None\<rparr>
     = Some \<lparr>name = str ''f.pdf'', size_pdf = 5, pages = [], rawBytes = [1, 2, 3, 4, 5]\<rparr>
   \<and> (10 :: number) \<notin> of_nat ` {..<length [10, 20, 30, 40, 50 :: nat]}
   \<and> handleDownload [[1, 2, 3, 4, 5] \<mapsto> [10, 20, 30, 40, 50 :: nat]] (map of_nat)
        \<lparr>status = READY,
         pdfData = Some \<lparr>name = str ''f.pdf'', size_pdf = 5, pages = [], rawBytes = [1, 2, 3, 4, 5]\<rparr>,
         selectedIndices = [10], aiQuery = [], isAiLoading = False, error = None\<rparr>
     = (\<lparr>status = READY,
         pdfData = Some \<lparr>name = str ''f.pdf'', size_pdf = 5, pages = [], rawBytes = [1, 2, 3, 4, 5]\<rparr>,
         selectedIndices = [10], aiQuery = [], isAiLoading = False,
         error = Some (str ''Failed to generate PDF.'')\<rparr>, None)"
proof -
  have r: "(10 :: number) \<notin> of_nat ` {..<length [10, 20, 30, 40, 50 :: nat]}"
    by (simp only: in_range_iff) simp
  show ?thesis
    using r handleDownload_out_of_range[of
        "\<lparr>status = READY,
          pdfData = Some \<lparr>name = str ''f.pdf'', size_pdf = 5, pages = [], rawBytes = [1, 2, 3, 4, 5]\<rparr>,
          selectedIndices = [10], aiQuery = [], isAiLoading = False, error = None\<rparr>"
        "\<lparr>name = str ''f.pdf'', size_pdf = 5, pages = [], rawBytes = [1, 2, 3, 4, 5]\<rparr>"
        "[[1, 2, 3, 4, 5] \<mapsto> [10, 20, 30, 40, 50 :: nat]]" "[10, 20, 30, 40, 50]" 10 "map of_nat",
        OF _ _ _ r]
    by simp
qed

text \<open>
  C10, as the code has it. For a source that the library loads, \<open>extractPages\<close> with
  no indices succeeds. No page of the source is copied; the library's \<open>save\<close> finds
  the new document without a page and gives it one blank page, so what is returned is
  the serialisation of a document of one page, the blank one.
\<close>

theorem extractPages_empty:
  assumes "load originalBytes = Some pdfDoc"
  shows "extractPages load (PDFDocument_save serialize blank) originalBytes []
           = Inr (serialize [blank])"
  using assms
  by (simp add: extractPages_def PDFDocument_create_def PDFDocument_save_def addPage_def)

theorem extractPages_empty_witness:
  "[[1, 2, 3, 4, 5] \<mapsto> [10, 20, 30, 40, 50 :: nat]] [1, 2, 3, 4, 5] = Some [10, 20, 30, 40, 50]
   \<and> extractPages [[1, 2, 3, 4, 5] \<mapsto> [10, 20, 30, 40, 50 :: nat]]
        (PDFDocument_save (map of_nat) 0) [1, 2, 3, 4, 5] []
       = Inr [0]"
  using extractPages_empty[of "[[1, 2, 3, 4, 5] \<mapsto> [10, 20, 30, 40, 50 :: nat]]" "[1, 2, 3, 4, 5]"
      "[10, 20, 30, 40, 50]" "map of_nat" 0]
  by simp

text \<open>
  As the claim is written, the document produced has no page. With a writer that
  writes one byte for each page, the bytes returned for no indices are those of the
  document of one page, not those of the document without pages.
\<close>

theorem extractPages_empty_counterexample:
  "extractPages [[1, 2, 3, 4, 5] \<mapsto> [10, 20, 30, 40, 50 :: nat]]
        (PDFDocument_save (map of_nat) 0) [1, 2, 3, 4, 5] []
     = Inr (map of_nat [0 :: nat])
   \<and> length [0 :: nat] = 1
   \<and> (map of_nat [0 :: nat] :: Uint8Array) \<noteq> map of_nat ([] :: nat list)"
  by (simp add: extractPages_def PDFDocument_create_def PDFDocument_save_def addPage_def)

section \<open>Suggestions\<close>

text \<open>The definitions that evaluate \<open>JSON.parse\<close> on a given text.\<close>

lemmas JSON_eval = JSON_parse_def str_def is_ws_def is_digit_def lex_number_def lex_fraction_def
  lex_exponent_def lex_sign_def digits_val_def pow10_def hex4_def hex_val_def unescape_def
  parse_step_def member_key_def close_array_def close_object_def next_member_def Let_def

lemma JSON_parse_empty: "JSON_parse [] = None"
  by (simp add: JSON_parse_def)

lemma filter_number_filter: "map JNumber (filter_number items) = filter typeof_number items"
  by (induction items rule: filter_number.induct) simp_all

text \<open>
  C9. The excerpts are one for each page, in page order and with the page's index; an
  excerpt is the first 500 code units of the page's text, so it is a prefix of the text
  and at most 500 long. The service is consulted at the request that carries these
  excerpts and at no other.
\<close>

theorem pageData_excerpts:
  "length (pageData ps) = length ps
   \<and> map index_x (pageData ps) = map index ps
   \<and> (\<forall>k<length ps.
         length (content (pageData ps ! k)) \<le> 500
         \<and> prefix (content (pageData ps ! k)) (textContent (ps ! k))
         \<and> content (pageData ps ! k) = take 500 (textContent (ps ! k)))
   \<and> suggestPagesByQuery generateContent query ps
       = suggestPagesByQuery
           (generateContent |` {\<lparr>req_query = query, req_data = pageData ps\<rparr>}) query ps"
proof -
  have a: "length (pageData ps) = length ps" by (simp add: pageData_def)
  have b: "map index_x (pageData ps) = map index ps" by (simp add: pageData_def)
  have c: "content (pageData ps ! k) = take 500 (textContent (ps ! k))" if "k < length ps" for k
    using that by (simp add: pageData_def substring_def)
  have d: "suggestPagesByQuery generateContent query ps
       = suggestPagesByQuery
           (generateContent |` {\<lparr>req_query = query, req_data = pageData ps\<rparr>}) query ps"
    by (simp add: suggestPagesByQuery_def)
  from a b c d show ?thesis by (simp add: take_is_prefix)
qed

theorem pageData_excerpts_witness:
  "(0 :: nat) < length [\<lparr>index = 0, thumbnail = [], textContent = replicate 600 0x61\<rparr>]
   \<and> map index_x (pageData [\<lparr>index = 0, thumbnail = [], textContent = replicate 600 0x61\<rparr>]) = [0]
   \<and> length (content (pageData [\<lparr>index = 0, thumbnail = [], textContent = replicate 600 0x61\<rparr>] ! 0)) = 500"
  using pageData_excerpts[of "[\<lparr>index = 0, thumbnail = [], textContent = replicate 600 0x61\<rparr>]"
      Map.empty "[]"]
  by simp

text \<open>
  C4. When the service answers and the text of its response is missing, or is not JSON,
  or is JSON for something else than an array, \<open>suggestPagesByQuery\<close> returns the
  empty list, as a value.
\<close>

theorem suggestPagesByQuery_no_array:
  assumes "generateContent \<lparr>req_query = query, req_data = pageData ps\<rparr> = Some response"
    and "case response_text response of
           None \<Rightarrow> True
         | Some t \<Rightarrow>
             (case JSON_parse t of None \<Rightarrow> True | Some parsed \<Rightarrow> \<not> Array_isArray parsed)"
  shows "suggestPagesByQuery generateContent query ps = Inr []"
proof (cases "response_text response")
  case None
  with assms(1) show ?thesis by (simp add: suggestPagesByQuery_def)
next
  case (Some t)
  show ?thesis
  proof (cases "JSON_parse t")
    case None
    with Some assms(1) show ?thesis by (simp add: suggestPagesByQuery_def)
  next
    case (Some parsed)
    with \<open>response_text response = Some t\<close> assms(2) have "\<not> Array_isArray parsed" by simp
    with Some \<open>response_text response = Some t\<close> assms(1) show ?thesis
      by (cases parsed) (simp_all add: suggestPagesByQuery_def)
  qed
qed

theorem suggestPagesByQuery_no_array_witness:
  \<open>JSON_parse (str ''oops'') = None
   \<and> JSON_parse (str ''{"a": 1}'') = Some (JObject [(str ''a'', JNumber 1)])
   \<and> suggestPagesByQuery
        [\<lparr>req_query = str ''q'', req_data = pageData []\<rparr> \<mapsto> \<lparr>response_text = None\<rparr>]
        (str ''q'') [] = Inr []
   \<and> suggestPagesByQuery
        [\<lparr>req_query = str ''q'', req_data = pageData []\<rparr> \<mapsto> \<lparr>response_text = Some (str ''oops'')\<rparr>]
        (str ''q'') [] = Inr []
   \<and> suggestPagesByQuery
        [\<lparr>req_query = str ''q'', req_data = pageData []\<rparr> \<mapsto> \<lparr>response_text = Some (str ''{"a": 1}'')\<rparr>]
        (str ''q'') [] = Inr []\<close>
proof -
  have a: \<open>JSON_parse (str ''oops'') = None\<close> by (simp add: JSON_eval)
  have b: \<open>JSON_parse (str ''{"a": 1}'') = Some (JObject [(str ''a'', JNumber 1)])\<close>
    by (simp add: JSON_eval)
  show ?thesis
    using a b
      suggestPagesByQuery_no_array[of
        "[\<lparr>req_query = str ''q'', req_data = pageData []\<rparr> \<mapsto> \<lparr>response_text = None\<rparr>]"
        "str ''q''" "[]" "\<lparr>response_text = None\<rparr>"]
      suggestPagesByQuery_no_array[of
        "[\<lparr>req_query = str ''q'', req_data = pageData []\<rparr> \<mapsto> \<lparr>response_text = Some (str ''oops'')\<rparr>]"
        "str ''q''" "[]" "\<lparr>response_text = Some (str ''oops'')\<rparr>"]
      suggestPagesByQuery_no_array[of
        \<open>[\<lparr>req_query = str ''q'', req_data = pageData []\<rparr> \<mapsto> \<lparr>response_text = Some (str ''{"a": 1}'')\<rparr>]\<close>
        "str ''q''" "[]" \<open>\<lparr>response_text = Some (str ''{"a": 1}'')\<rparr>\<close>]
    by simp
qed

text \<open>
  C5, as the code has it. When the text of the response parses to an array,
  \<open>suggestPagesByQuery\<close> returns its elements that are numbers, integers or not, in
  their order, and drops the others; \<open>[1, 2, "x", 4]\<close> gives \<open>[1, 2, 4]\<close>.
\<close>

theorem suggestPagesByQuery_array:
  assumes "generateContent \<lparr>req_query = query, req_data = pageData ps\<rparr> = Some response"
    and "response_text response = Some t"
    and "JSON_parse t = Some (JArray items)"
  shows "suggestPagesByQuery generateContent query ps = Inr (filter_number items)
         \<and> map JNumber (filter_number items) = filter typeof_number items"
proof -
  have "t \<noteq> []" using assms(3) JSON_parse_empty by auto
  with assms show ?thesis
    by (simp add: suggestPagesByQuery_def filter_number_filter)
qed

theorem suggestPagesByQuery_array_witness:
  \<open>JSON_parse (str ''[1, 2, "x", 4]'')
     = Some (JArray [JNumber 1, JNumber 2, JString (str ''x''), JNumber 4])
   \<and> suggestPagesByQuery
        [\<lparr>req_query = str ''q'', req_data = pageData []\<rparr>
           \<mapsto> \<lparr>response_text = Some (str ''[1, 2, "x", 4]'')\<rparr>]
        (str ''q'') [] = Inr [1, 2, 4]\<close>
proof -
  have a: \<open>JSON_parse (str ''[1, 2, "x", 4]'')
     = Some (JArray [JNumber 1, JNumber 2, JString (str ''x''), JNumber 4])\<close>
    by (simp add: JSON_eval)
  show ?thesis
    using a suggestPagesByQuery_array[of
        \<open>[\<lparr>req_query = str ''q'', req_data = pageData []\<rparr>
           \<mapsto> \<lparr>response_text = Some (str ''[1, 2, "x", 4]'')\<rparr>]\<close>
        "str ''q''" "[]" \<open>\<lparr>response_text = Some (str ''[1, 2, "x", 4]'')\<rparr>\<close>
        \<open>str ''[1, 2, "x", 4]''\<close> "[JNumber 1, JNumber 2, JString (str ''x''), JNumber 4]"]
    by simp
qed

text \<open>
  As the claim is written, an element that is no integer is dropped. \<open>2.5\<close> is a
  number, and stays.
\<close>

lemma five_halves_no_integer: "(5 / 2 :: rat) \<notin> \<int>"
proof
  assume "(5 / 2 :: rat) \<in> \<int>"
  then obtain k where "(5 / 2 :: rat) = of_int k" by (auto elim: Ints_cases)
  then have "rat_of_int 5 = rat_of_int (2 * k)" by simp
  then have "5 = 2 * k" by (simp only: of_int_eq_iff)
  then show False by presburger
qed

theorem suggestPagesByQuery_integers_counterexample:
  \<open>JSON_parse (str ''[1, 2.5]'') = Some (JArray [JNumber 1, JNumber (5 / 2)])
   \<and> suggestPagesByQuery
        [\<lparr>req_query = str ''q'', req_data = pageData []\<rparr>
           \<mapsto> \<lparr>response_text = Some (str ''[1, 2.5]'')\<rparr>]
        (str ''q'') [] = Inr [1, 5 / 2]
   \<and> (5 / 2 :: number) \<notin> \<int>\<close>
proof -
  have a: \<open>JSON_parse (str ''[1, 2.5]'') = Some (JArray [JNumber 1, JNumber (5 / 2)])\<close>
    by (simp add: JSON_eval)
  have b: "str ''[1, 2.5]'' \<noteq> []" by (simp add: str_def)
  from a b five_halves_no_integer show ?thesis
    by (simp add: suggestPagesByQuery_def)
qed

section \<open>Select all, and the suggestions installed\<close>

text \<open>
  \<open>new Set\<close> of a list without repetition is that list, and of any list has the
  members of the list. The records that \<open>parsePDF\<close> returns have distinct indices.
\<close>

lemma foldl_Set_add_distinct:
  "distinct (acc @ xs) \<Longrightarrow> foldl Set_add acc xs = acc @ xs"
  by (induction xs arbitrary: acc) (auto simp: Set_add_def Set_has_def)

lemma Set_new_distinct: "distinct xs \<Longrightarrow> Set_new xs = xs"
  using foldl_Set_add_distinct[of "[]" xs] by (simp add: Set_new_def)

lemma set_foldl_Set_add: "set (foldl Set_add acc xs) = set acc \<union> set xs"
  by (induction xs arbitrary: acc) (auto simp: Set_add_def Set_has_def)

lemma set_Set_new: "set (Set_new xs) = set xs"
  by (simp add: Set_new_def set_foldl_Set_add)

lemma parsePDF_distinct:
  assumes "parsePDF getDocument ctx_null file = Inr d"
  shows "distinct (map index (pages d))"
proof -
  from assms obtain pdf ps where run: "parsePDF_loop pdf ctx_null 1 [] = Inr ps"
    and d: "pages d = ps"
    by (auto simp: parsePDF_def Let_def split: option.splits sum.splits prod.splits)
  have "map index ps =
      map (\<lambda>k. of_nat k - 1) (filter (\<lambda>k. k \<notin> ctx_null) [1..<Suc (length pdf)])"
    using parsePDF_loop_indices[OF run] by (simp del: upt_Suc)
  then have "sorted_wrt (<) (map index ps)"
    by (simp only: physical_indices_increasing)
  then show ?thesis using d by (simp add: strict_sorted_iff)
qed

text \<open>
  C7, as the code has it. \<open>handleSelectAll\<close> clears when the size of the selection
  equals the number of page records and selects every page otherwise. On a loaded
  document, two invocations leave the selection empty when the starting selection has
  another size than the number of page records, or when there is no page record; when
  the starting selection has that size and there are page records, the first
  invocation clears and the second selects every page.
\<close>

theorem handleSelectAll_twice:
  assumes "parsePDF getDocument ctx_null file = Inr d"
    and "pdfData st = Some d"
  shows "selectedIndices (handleSelectAll (handleSelectAll st))
           = (if Set_size (selectedIndices st) = length (pages d) \<and> pages d \<noteq> []
              then map index (pages d) else [])"
proof -
  have all: "Set_new (map index (pages d)) = map index (pages d)"
    using parsePDF_distinct[OF assms(1)] by (rule Set_new_distinct)
  have none: "Set_new ([] :: number list) = []" by (simp add: Set_new_def)
  show ?thesis
  proof (cases "Set_size (selectedIndices st) = length (pages d)")
    case True
    then have one: "handleSelectAll st = st\<lparr>selectedIndices := []\<rparr>"
      using assms(2) none by (simp add: handleSelectAll_def)
    show ?thesis
      unfolding one using True assms(2) all none
      by (auto simp: handleSelectAll_def Set_size_def)
  next
    case False
    then have one: "handleSelectAll st = st\<lparr>selectedIndices := map index (pages d)\<rparr>"
      using assms(2) all by (simp add: handleSelectAll_def)
    show ?thesis
      unfolding one using False assms(2) none
      by (simp add: handleSelectAll_def Set_size_def)
  qed
qed


theorem handleSelectAll_twice_witness:
  "parsePDF [[1, 2, 3] \<mapsto> ([Rendered (str ''t1'') [str ''a''], Rendered (str ''t2'') [str ''b'']], [])] {} \<lparr>file_name = str ''f.pdf'', file_size = 3, file_bytes = [1, 2, 3]\<rparr>
     = Inr \<lparr>name = str ''f.pdf'', size_pdf = 3,
          pages = [\<lparr>index = 0, thumbnail = str ''t1'', textContent = str ''a''\<rparr>,
                   \<lparr>index = 1, thumbnail = str ''t2'', textContent = str ''b''\<rparr>],
          rawBytes = []\<rparr>
   \<and> selectedIndices (handleSelectAll (handleSelectAll
       \<lparr>status = READY,
        pdfData = Some \<lparr>name = str ''f.pdf'', size_pdf = 3,
          pages = [\<lparr>index = 0, thumbnail = str ''t1'', textContent = str ''a''\<rparr>,
                   \<lparr>index = 1, thumbnail = str ''t2'', textContent = str ''b''\<rparr>],
          rawBytes = []\<rparr>,
        selectedIndices = [0], aiQuery = [], isAiLoading = False, error = None\<rparr>))
     = []"
proof -
  have a: "parsePDF [[1, 2, 3] \<mapsto> ([Rendered (str ''t1'') [str ''a''], Rendered (str ''t2'') [str ''b'']], [])] {} \<lparr>file_name = str ''f.pdf'', file_size = 3, file_bytes = [1, 2, 3]\<rparr>
     = Inr \<lparr>name = str ''f.pdf'', size_pdf = 3,
          pages = [\<lparr>index = 0, thumbnail = str ''t1'', textContent = str ''a''\<rparr>,
                   \<lparr>index = 1, thumbnail = str ''t2'', textContent = str ''b''\<rparr>],
          rawBytes = []\<rparr>"
    by (simp add: parsePDF_def parsePDF_loop.simps getPage_def str_def)
  show ?thesis
    using a handleSelectAll_twice[OF a, of
       "\<lparr>status = READY,
        pdfData = Some \<lparr>name = str ''f.pdf'', size_pdf = 3,
          pages = [\<lparr>index = 0, thumbnail = str ''t1'', textContent = str ''a''\<rparr>,
                   \<lparr>index = 1, thumbnail = str ''t2'', textContent = str ''b''\<rparr>],
          rawBytes = []\<rparr>,
        selectedIndices = [0], aiQuery = [], isAiLoading = False, error = None\<rparr>"]
    by (simp add: Set_size_def)
qed

text \<open>
  As the claim is written, two invocations leave the selection empty from every
  starting selection. From both pages of a document of two pages selected, the first
  invocation clears and the second selects both again.
\<close>

theorem handleSelectAll_twice_counterexample:
  "parsePDF [[1, 2, 3] \<mapsto> ([Rendered (str ''t1'') [str ''a''], Rendered (str ''t2'') [str ''b'']], [])] {} \<lparr>file_name = str ''f.pdf'', file_size = 3, file_bytes = [1, 2, 3]\<rparr>
     = Inr \<lparr>name = str ''f.pdf'', size_pdf = 3,
          pages = [\<lparr>index = 0, thumbnail = str ''t1'', textContent = str ''a''\<rparr>,
                   \<lparr>index = 1, thumbnail = str ''t2'', textContent = str ''b''\<rparr>],
          rawBytes = []\<rparr>
   \<and> selectedIndices (handleSelectAll (handleSelectAll
       \<lparr>status = READY,
        pdfData = Some \<lparr>name = str ''f.pdf'', size_pdf = 3,
          pages = [\<lparr>index = 0, thumbnail = str ''t1'', textContent = str ''a''\<rparr>,
                   \<lparr>index = 1, thumbnail = str ''t2'', textContent = str ''b''\<rparr>],
          rawBytes = []\<rparr>,
        selectedIndices = [0, 1], aiQuery = [], isAiLoading = False, error = None\<rparr>))
     = [0, 1]"
  by (simp add: parsePDF_def parsePDF_loop.simps getPage_def str_def handleSelectAll_def
      Set_size_def Set_new_def Set_add_def Set_has_def)

text \<open>
  C8. The numbers that the service returns become the members of the selection, all
  of them, without a check against the document; the error message stays as it was.
  With a member that is out of range for the document, the next export fails in the
  extraction and sets the error message.
\<close>

lemma filter_number_numbers: "filter_number (map JNumber ns) = ns"
  by (induction ns) simp_all

theorem handleAiSearch_unchecked:
  assumes "pdfData st = Some d"
    and "trim (aiQuery st) \<noteq> []"
    and "\<not> isAiLoading st"
    and "generateContent \<lparr>req_query = aiQuery st, req_data = pageData (pages d)\<rparr> = Some response"
    and "response_text response = Some t"
    and "JSON_parse t = Some (JArray (map JNumber ns))"
    and "load (rawBytes d) = Some pdfDoc"
  shows "set (selectedIndices (handleAiSearch generateContent st)) = set ns
         \<and> error (handleAiSearch generateContent st) = error st
         \<and> (\<forall>n\<in>set ns. n \<notin> of_nat ` {..<length pdfDoc} \<longrightarrow>
               handleDownload load save (handleAiSearch generateContent st)
                 = ((handleAiSearch generateContent st)
                      \<lparr>error := Some (str ''Failed to generate PDF.''), status := READY\<rparr>,
                    None))"
proof -
  have "t \<noteq> []" using assms(6) JSON_parse_empty by auto
  with assms(4,5,6) have "suggestPagesByQuery generateContent (aiQuery st) (pages d) = Inr ns"
    by (simp add: suggestPagesByQuery_def filter_number_numbers)
  with assms(1,2,3) have st': "handleAiSearch generateContent st
      = st\<lparr>selectedIndices := Set_new ns, isAiLoading := False\<rparr>"
    by (simp add: handleAiSearch_def)
  have a: "set (selectedIndices (handleAiSearch generateContent st)) = set ns"
    by (simp add: st' set_Set_new)
  have b: "error (handleAiSearch generateContent st) = error st"
    by (simp add: st')
  have c: "handleDownload load save (handleAiSearch generateContent st)
      = ((handleAiSearch generateContent st)
           \<lparr>error := Some (str ''Failed to generate PDF.''), status := READY\<rparr>, None)"
    if "n \<in> set ns" and "n \<notin> of_nat ` {..<length pdfDoc}" for n
  proof -
    have p: "pdfData (handleAiSearch generateContent st) = Some d"
      by (simp add: st' assms(1))
    have m: "n \<in> set (selectedIndices (handleAiSearch generateContent st))"
      using that(1) a by simp
    from export_out_of_range[of "handleAiSearch generateContent st" d load pdfDoc n save,
        OF p assms(7) m that(2)]
    show ?thesis by simp
  qed
  from a b c show ?thesis by blast
qed

theorem handleAiSearch_unchecked_witness:
  "trim (str ''tax'') \<noteq> []
   \<and> JSON_parse (str ''[0, 7]'') = Some (JArray (map JNumber [0, 7]))
   \<and> (7 :: number) \<notin> of_nat ` {..<length [10, 20 :: nat]}
   \<and> handleAiSearch [\<lparr>req_query = str ''tax'',
          req_data = [\<lparr>index_x = 0, content = str ''a''\<rparr>, \<lparr>index_x = 1, content = str ''b''\<rparr>]\<rparr>
          \<mapsto> \<lparr>response_text = Some (str ''[0, 7]'')\<rparr>]
        \<lparr>status = READY,
        pdfData = Some \<lparr>name = str ''f.pdf'', size_pdf = 3,
          pages = [\<lparr>index = 0, thumbnail = str ''t1'', textContent = str ''a''\<rparr>,
                   \<lparr>index = 1, thumbnail = str ''t2'', textContent = str ''b''\<rparr>],
          rawBytes = [1, 2, 3]\<rparr>,
        selectedIndices = [], aiQuery = str ''tax'', isAiLoading = False, error = None\<rparr>
     = \<lparr>status = READY,
        pdfData = Some \<lparr>name = str ''f.pdf'', size_pdf = 3,
          pages = [\<lparr>index = 0, thumbnail = str ''t1'', textContent = str ''a''\<rparr>,
                   \<lparr>index = 1, thumbnail = str ''t2'', textContent = str ''b''\<rparr>],
          rawBytes = [1, 2, 3]\<rparr>,
        selectedIndices = [0, 7], aiQuery = str ''tax'', isAiLoading = False, error = None\<rparr>
   \<and> handleDownload [[1, 2, 3] \<mapsto> [10, 20 :: nat]] (map of_nat)
        \<lparr>status = READY,
        pdfData = Some \<lparr>name = str ''f.pdf'', size_pdf = 3,
          pages = [\<lparr>index = 0, thumbnail = str ''t1'', textContent = str ''a''\<rparr>,
                   \<lparr>index = 1, thumbnail = str ''t2'', textContent = str ''b''\<rparr>],
          rawBytes = [1, 2, 3]\<rparr>,
        selectedIndices = [0, 7], aiQuery = str ''tax'', isAiLoading = False, error = None\<rparr>
     = (\<lparr>status = READY,
        pdfData = Some \<lparr>name = str ''f.pdf'', size_pdf = 3,
          pages = [\<lparr>index = 0, thumbnail = str ''t1'', textContent = str ''a''\<rparr>,
                   \<lparr>index = 1, thumbnail = str ''t2'', textContent = str ''b''\<rparr>],
          rawBytes = [1, 2, 3]\<rparr>,
        selectedIndices = [0, 7], aiQuery = str ''tax'', isAiLoading = False, error = Some (str ''Failed to generate PDF.'')\<rparr>, None)"
proof -
  let ?gc = "[\<lparr>req_query = str ''tax'',
          req_data = [\<lparr>index_x = 0, content = str ''a''\<rparr>, \<lparr>index_x = 1, content = str ''b''\<rparr>]\<rparr>
          \<mapsto> \<lparr>response_text = Some (str ''[0, 7]'')\<rparr>]"
  let ?st = "\<lparr>status = READY,
        pdfData = Some \<lparr>name = str ''f.pdf'', size_pdf = 3,
          pages = [\<lparr>index = 0, thumbnail = str ''t1'', textContent = str ''a''\<rparr>,
                   \<lparr>index = 1, thumbnail = str ''t2'', textContent = str ''b''\<rparr>],
          rawBytes = [1, 2, 3]\<rparr>,
        selectedIndices = [], aiQuery = str ''tax'', isAiLoading = False, error = None\<rparr>"
  have q: "trim (str ''tax'') \<noteq> []"
    by (simp add: trim_def is_space_def str_def)
  have p: "JSON_parse (str ''[0, 7]'') = Some (JArray (map JNumber [0, 7]))"
    by (simp add: JSON_eval)
  have r: "(7 :: number) \<notin> of_nat ` {..<length [10, 20 :: nat]}"
    by (simp only: in_range_iff) simp
  have g: "?gc \<lparr>req_query = aiQuery ?st,
        req_data = pageData (pages \<lparr>name = str ''f.pdf'', size_pdf = 3,
          pages = [\<lparr>index = 0, thumbnail = str ''t1'', textContent = str ''a''\<rparr>,
                   \<lparr>index = 1, thumbnail = str ''t2'', textContent = str ''b''\<rparr>],
          rawBytes = [1, 2, 3]\<rparr>)\<rparr>
      = Some \<lparr>response_text = Some (str ''[0, 7]'')\<rparr>"
    by (simp add: pageData_def substring_def str_def)
  have s: "handleAiSearch ?gc ?st = \<lparr>status = READY,
        pdfData = Some \<lparr>name = str ''f.pdf'', size_pdf = 3,
          pages = [\<lparr>index = 0, thumbnail = str ''t1'', textContent = str ''a''\<rparr>,
                   \<lparr>index = 1, thumbnail = str ''t2'', textContent = str ''b''\<rparr>],
          rawBytes = [1, 2, 3]\<rparr>,
        selectedIndices = [0, 7], aiQuery = str ''tax'', isAiLoading = False, error = None\<rparr>"
    using q p g by (simp add: handleAiSearch_def suggestPagesByQuery_def Set_new_def Set_add_def
        Set_has_def str_def)
  show ?thesis
    using q p r s
      handleAiSearch_unchecked[of ?st "\<lparr>name = str ''f.pdf'', size_pdf = 3,
          pages = [\<lparr>index = 0, thumbnail = str ''t1'', textContent = str ''a''\<rparr>,
                   \<lparr>index = 1, thumbnail = str ''t2'', textContent = str ''b''\<rparr>],
          rawBytes = [1, 2, 3]\<rparr>" ?gc "\<lparr>response_text = Some (str ''[0, 7]'')\<rparr>" "str ''[0, 7]''" "[0, 7]"
        "[[1, 2, 3] \<mapsto> [10, 20 :: nat]]" "[10, 20]" "map of_nat", OF _ _ _ g _ p]
    by (simp add: q)
qed

end
